theory Spec2Isabelle
  imports Complex_Main "HOL-Library.Char_ord" "HOL-Library.List_Lexorder"
begin

section \<open>Data model of \<open>uk_area_stats.py\<close>\<close>

text \<open>
  A calendar day is its day number (days since 1970-01-01), the order in which
  \<open>pd.Timestamp\<close> compares dates; consecutive days are consecutive integers, so
  \<open>pd.date_range(a, b, freq='D')\<close> is the integer interval from \<open>a\<close> to \<open>b\<close>.
  \<open>ymd\<close> gives the day number of a Gregorian date and is only used to write dates.
\<close>

type_synonym date = int

definition ymd :: "int \<Rightarrow> int \<Rightarrow> int \<Rightarrow> date" where
  "ymd y m d =
     (let y' = (if m \<le> 2 then y - 1 else y);
          era = y' div 400;
          yoe = y' - era * 400;
          doy = (153 * (if m > 2 then m - 3 else m + 9) + 2) div 5 + d - 1;
          doe = yoe * 365 + yoe div 4 - yoe div 100 + doy
      in era * 146097 + doe - 719468)"

text \<open>
  A cell is a float or NaN; \<open>None\<close> is NaN, the marker pandas uses for a missing value.
  Counts are small integers, on which float arithmetic is exact, so a value is a real.
\<close>

type_synonym cell = "real option"

text \<open>
  A data frame whose rows are keyed by (Country, Area name) and whose columns are keyed
  by a date. It is stored by columns, as pandas does: \<open>index\<close> is the list of row keys
  and every column is its label with one cell per row.
\<close>

record matrix =
  index :: "(string \<times> string) list"
  columns :: "(date \<times> cell list) list"

datatype error = FetchError | ValueError | IndexError | AttributeError | InvalidIndexError

definition labels :: "matrix \<Rightarrow> date list" where
  "labels df = map fst (columns df)"

text \<open>\<open>df.loc[key, day]\<close>: the cell of the first row keyed \<open>key\<close> in the first column labelled \<open>day\<close>.\<close>

definition loc :: "matrix \<Rightarrow> string \<times> string \<Rightarrow> date \<Rightarrow> cell option" where
  "loc df key day =
     (case map_of (columns df) day of
        None \<Rightarrow> None
      | Some c \<Rightarrow> map_of (zip (index df) c) key)"

section \<open>The backfill normalizer\<close>

text \<open>\<open>df.fillna(v)\<close> on one cell and on a frame.\<close>

definition fill_cell :: "real \<Rightarrow> cell \<Rightarrow> cell" where
  "fill_cell v x = (case x of None \<Rightarrow> Some v | Some y \<Rightarrow> Some y)"

definition fillna :: "real \<Rightarrow> matrix \<Rightarrow> matrix" where
  "fillna v df = df\<lparr>columns := map (\<lambda>(d, c). (d, map (fill_cell v) c)) (columns df)\<rparr>"

text \<open>\<open>pd.date_range(lo, hi, freq='D')\<close>.\<close>

definition date_range :: "date \<Rightarrow> date \<Rightarrow> date list" where
  "date_range lo hi = [lo..hi]"

text \<open>\<open>np.setdiff1d(xs, ys)\<close>: the sorted, unique values of \<open>xs\<close> that are not in \<open>ys\<close>.\<close>

definition setdiff1d :: "date list \<Rightarrow> date list \<Rightarrow> date list" where
  "setdiff1d xs ys = sort (remdups (filter (\<lambda>x. x \<notin> set ys) xs))"

text \<open>
  \<open>df[day] = v\<close>: every column labelled \<open>day\<close> is overwritten with the scalar; when there
  is none, a new column is appended as the last one.
\<close>

definition set_column :: "matrix \<Rightarrow> date \<Rightarrow> real \<Rightarrow> matrix" where
  "set_column df day v =
     (let new = replicate (length (index df)) (Some v) in
      if day \<in> set (labels df)
      then df\<lparr>columns := map (\<lambda>(d, c). if d = day then (d, new) else (d, c)) (columns df)\<rparr>
      else df\<lparr>columns := columns df @ [(day, new)]\<rparr>)"

text \<open>
  \<open>df[keys]\<close> with a list of labels: for each key in turn, every column carrying that
  label (with unique labels, exactly one column per key).
\<close>

definition select_columns :: "matrix \<Rightarrow> date list \<Rightarrow> matrix" where
  "select_columns df keys =
     df\<lparr>columns := concat (map (\<lambda>k. filter (\<lambda>c. fst c = k) (columns df)) keys)\<rparr>"

text \<open>
  \<open>_backfill_missing_data\<close>. With no column at all \<open>df.columns.min()\<close> is not a date and
  \<open>pd.date_range\<close> raises \<open>ValueError\<close>.
\<close>

definition backfill_missing_data :: "matrix \<Rightarrow> error + matrix" where
  "backfill_missing_data df0 =
     (let df = fillna 0 df0 in
      if labels df = [] then Inl ValueError
      else
        let all_days = date_range (Min (set (labels df))) (Max (set (labels df)));
            missing_days = setdiff1d all_days (labels df);
            df1 = foldl (\<lambda>f missing_day. set_column f missing_day 0) df missing_days;
            df2 = select_columns df1 (sort (labels df1))
        in Inr df2)"

text \<open>
  The column a backfilled frame is shown below to hold for a day: the frame's own
  column with every NaN replaced by 0.0, or zeros when the frame has no such column.
\<close>

definition bcol :: "matrix \<Rightarrow> date \<Rightarrow> cell list" where
  "bcol df day =
     (case map_of (columns df) day of
        None \<Rightarrow> replicate (length (index df)) (Some 0)
      | Some c \<Rightarrow> map (fill_cell 0) c)"

section \<open>The England/Wales reshaper\<close>

text \<open>
  One record of the dashboard CSV, as \<open>pd.read_csv\<close> returns it, with the columns the
  loader reads. The \<open>date\<close> text is taken as parsed by \<open>pd.to_datetime\<close>; an empty
  \<open>newCasesBySpecimenDate\<close> is NaN.
\<close>

record uk_row =
  areaCode :: string
  areaName :: string
  date :: date
  newCasesBySpecimenDate :: cell

text \<open>
  One column of the Scotland CSV holds the dates, every other column one health board.
  A raw cell is a number, the placeholder \<open>*\<close>, empty (NaN), or some other text.
  \<open>boards\<close> is the header after the date column, \<open>lines\<close> the records in file order:
  the date of the record and one raw cell per board.
\<close>

datatype raw_cell = Num real | Star | Empty | Text string

record scotland_csv =
  boards :: "string list"
  lines :: "(date \<times> raw_cell list) list"

text \<open>
  What the remote endpoints answer: \<open>read_uk area_type\<close> for \<open>UK_CASES_PATH\<close> with the
  area type substituted, \<open>read_scotland\<close> for \<open>SCOTLAND_PATH\<close>; \<open>None\<close> when the
  request or the parsing of the answer fails, which \<open>pd.read_csv\<close> raises as an error
  (\<open>FetchError\<close> below).
\<close>

record world =
  read_uk :: "string \<Rightarrow> uk_row list option"
  read_scotland :: "scotland_csv option"

text \<open>The mean of the values of one group; the mean of no value is NaN.\<close>

definition mean :: "real list \<Rightarrow> cell" where
  "mean vs = (if vs = [] then None else Some (sum_list vs / real (length vs)))"

text \<open>
  \<open>df.pivot_table(index=['Country', 'Area name'], columns=DATE_COLUMN_NAME, values=...)\<close>
  with the defaults \<open>aggfunc='mean'\<close> and \<open>dropna=True\<close>: the rows are grouped by
  (Country, Area name, date), a group's cell is the mean of its values that are not NaN,
  a group with no such value is dropped, and row keys and column labels come out
  sorted. \<open>Country\<close> is the same on every row.
\<close>

definition pivot_table :: "string \<Rightarrow> uk_row list \<Rightarrow> matrix" where
  "pivot_table country df =
     (let obs = filter (\<lambda>r. newCasesBySpecimenDate r \<noteq> None) df;
          areas = sort (remdups (map areaName obs));
          days = sort (remdups (map date obs))
      in \<lparr>index = map (Pair country) areas,
          columns = map (\<lambda>d. (d, map (\<lambda>a. mean (map (\<lambda>r. the (newCasesBySpecimenDate r))
                                   (filter (\<lambda>r. areaName r = a \<and> date r = d) obs))) areas)) days\<rparr>)"

text \<open>\<open>_load_cases_dataset\<close>. The request is made before \<open>country[0]\<close> is evaluated.\<close>

definition load_cases_dataset :: "world \<Rightarrow> string \<Rightarrow> string \<Rightarrow> error + matrix" where
  "load_cases_dataset w area_type country =
     (case read_uk w area_type of
        None \<Rightarrow> Inl FetchError
      | Some df \<Rightarrow>
          (case country of
             [] \<Rightarrow> Inl IndexError
           | c # _ \<Rightarrow>
               backfill_missing_data
                 (pivot_table country (filter (\<lambda>r. take 1 (areaCode r) = [c]) df))))"

section \<open>The Scotland reshaper\<close>

text \<open>\<open>df.replace('*', 0.0).astype(float)\<close> on one cell: text that is no number raises.\<close>

fun to_float :: "raw_cell \<Rightarrow> error + cell" where
  "to_float (Num x) = Inr (Some x)"
| "to_float Star = Inr (Some 0)"
| "to_float Empty = Inr None"
| "to_float (Text s) = Inl ValueError"

fun to_floats :: "raw_cell list \<Rightarrow> error + cell list" where
  "to_floats [] = Inr []"
| "to_floats (x # xs) =
     (case to_float x of
        Inl e \<Rightarrow> Inl e
      | Inr y \<Rightarrow> (case to_floats xs of Inl e \<Rightarrow> Inl e | Inr ys \<Rightarrow> Inr (y # ys)))"

fun convert_columns :: "(date \<times> raw_cell list) list \<Rightarrow> error + (date \<times> cell list) list" where
  "convert_columns [] = Inr []"
| "convert_columns ((d, c) # cs) =
     (case to_floats c of
        Inl e \<Rightarrow> Inl e
      | Inr c' \<Rightarrow> (case convert_columns cs of Inl e \<Rightarrow> Inl e | Inr cs' \<Rightarrow> Inr ((d, c') # cs')))"

text \<open>Float subtraction: NaN on either side gives NaN.\<close>

fun sub :: "cell \<Rightarrow> cell \<Rightarrow> cell" where
  "sub (Some a) (Some b) = Some (a - b)"
| "sub _ _ = None"

text \<open>
  The loop \<open>for i in range(len(df.columns) - 1, 1, -1)\<close> with the body
  \<open>df.iloc[:, i] = df.iloc[:, i] - df.iloc[:, i-1]\<close>: \<open>cumulative_to_daily i cs\<close> runs it
  from index \<open>i\<close> downwards on the columns \<open>cs\<close>, and stops above index 1.
\<close>

fun cumulative_to_daily :: "nat \<Rightarrow> (date \<times> cell list) list \<Rightarrow> (date \<times> cell list) list" where
  "cumulative_to_daily 0 cs = cs"
| "cumulative_to_daily (Suc 0) cs = cs"
| "cumulative_to_daily (Suc (Suc k)) cs =
     cumulative_to_daily (Suc k)
       (cs[Suc (Suc k) := (fst (cs ! Suc (Suc k)),
                           map2 sub (snd (cs ! Suc (Suc k))) (snd (cs ! Suc k)))])"

text \<open>
  \<open>_load_scotland_cases_dataset\<close>. After the transposition the boards are the rows and
  the records of the file, in file order, are the columns; the first row, the dates,
  becomes the column labels.
\<close>

definition load_scotland_cases_dataset :: "world \<Rightarrow> error + matrix" where
  "load_scotland_cases_dataset w =
     (case read_scotland w of
        None \<Rightarrow> Inl FetchError
      | Some csv \<Rightarrow>
          (case convert_columns (lines csv) of
             Inl e \<Rightarrow> Inl e
           | Inr cs \<Rightarrow>
               Inr \<lparr>index = map (Pair ''Scotland'') (boards csv),
                    columns = cumulative_to_daily (length cs - 1) cs\<rparr>))"

section \<open>The provider \<open>UKCovid19Data\<close>\<close>

text \<open>
  The class attributes. \<open>england_area_type\<close> is not declared in the class body: it
  exists only once the constructor has assigned it, and \<open>None\<close> stands for the missing
  attribute. \<open>requests\<close> is no attribute: it records every call of a loader, each of
  which issues one request, in the order of the calls.
\<close>

datatype request = LoadCases string string | LoadScotland

record class_state =
  england_cases_data :: "matrix option"
  wales_cases_data :: "matrix option"
  wales_tests_data :: "matrix option"
  scotland_cases_data :: "matrix option"
  england_area_type :: "string option"
  requests :: "request list"

definition class_initial :: class_state where
  "class_initial =
     \<lparr>england_cases_data = None, wales_cases_data = None, wales_tests_data = None,
      scotland_cases_data = None, england_area_type = None, requests = []\<rparr>"

definition ENGLAND_UPPER_TIER_AUTHORITY :: string where
  "ENGLAND_UPPER_TIER_AUTHORITY = ''utla''"

definition ENGLAND_LOWER_TIER_AUTHORITY :: string where
  "ENGLAND_LOWER_TIER_AUTHORITY = ''ltla''"

text \<open>
  The three statements of \<open>__init__\<close>. Each returns the class state it leaves and the
  exception it raises, if any: the class state outlives a constructor that raises.
  \<open>or\<close> evaluates its operands from the left and stops at the first true one, so
  \<open>england_area_type\<close> is read only when the data is cached and \<open>force_load\<close> is false;
  reading it while it is missing raises \<open>AttributeError\<close>.
\<close>

definition init_england :: "world \<Rightarrow> bool \<Rightarrow> string \<Rightarrow> class_state \<Rightarrow> class_state \<times> error option" where
  "init_england w force_load area_type s =
     (let reload =
            (let s1 = s\<lparr>england_area_type := Some area_type,
                        requests := requests s @ [LoadCases area_type ''England'']\<rparr>
             in case load_cases_dataset w area_type ''England'' of
                  Inl e \<Rightarrow> (s1, Some e)
                | Inr df \<Rightarrow> (s1\<lparr>england_cases_data := Some df\<rparr>, None))
      in if england_cases_data s = None \<or> force_load then reload
         else (case england_area_type s of
                 None \<Rightarrow> (s, Some AttributeError)
               | Some cached \<Rightarrow> if cached \<noteq> area_type then reload else (s, None)))"

definition init_wales :: "world \<Rightarrow> bool \<Rightarrow> string \<Rightarrow> class_state \<Rightarrow> class_state \<times> error option" where
  "init_wales w force_load area_type s =
     (if wales_cases_data s = None \<or> wales_tests_data s = None \<or> force_load
      then (let s1 = s\<lparr>requests := requests s @ [LoadCases area_type ''Wales'']\<rparr>
            in case load_cases_dataset w area_type ''Wales'' of
                 Inl e \<Rightarrow> (s1, Some e)
               | Inr df \<Rightarrow> (s1\<lparr>wales_cases_data := Some df\<rparr>, None))
      else (s, None))"

definition init_scotland :: "world \<Rightarrow> bool \<Rightarrow> class_state \<Rightarrow> class_state \<times> error option" where
  "init_scotland w force_load s =
     (if scotland_cases_data s = None \<or> force_load
      then (let s1 = s\<lparr>requests := requests s @ [LoadScotland]\<rparr>
            in case load_scotland_cases_dataset w of
                 Inl e \<Rightarrow> (s1, Some e)
               | Inr df \<Rightarrow> (s1\<lparr>scotland_cases_data := Some df\<rparr>, None))
      else (s, None))"

text \<open>\<open>UKCovid19Data.__init__\<close>: the three statements in turn, up to the first that raises.\<close>

definition init :: "world \<Rightarrow> bool \<Rightarrow> string \<Rightarrow> class_state \<Rightarrow> class_state \<times> error option" where
  "init w force_load area_type s =
     (case init_england w force_load area_type s of
        (s1, Some e) \<Rightarrow> (s1, Some e)
      | (s1, None) \<Rightarrow>
          (case init_wales w force_load area_type s1 of
             (s2, Some e) \<Rightarrow> (s2, Some e)
           | (s2, None) \<Rightarrow> init_scotland w force_load s2))"

text \<open>
  A process constructs the provider any number of times, each time with its own
  arguments and with the endpoints answering as they do at that time.
\<close>

fun constructions :: "(world \<times> bool \<times> string) list \<Rightarrow> class_state \<Rightarrow> class_state" where
  "constructions [] s = s"
| "constructions ((w, force_load, area_type) # calls) s =
     constructions calls (fst (init w force_load area_type s))"

text \<open>
  What holds of the class attributes in every state a process reaches:
  \<open>wales_tests_data\<close> is never assigned, and a cached England dataset comes with an
  assigned \<open>england_area_type\<close>.
\<close>

definition cache_inv :: "class_state \<Rightarrow> bool" where
  "cache_inv s \<longleftrightarrow>
     wales_tests_data s = None \<and>
     (england_cases_data s \<noteq> None \<longrightarrow> england_area_type s \<noteq> None)"

text \<open>
  The union of two column indexes, \<open>xs.union(ys, sort=...)\<close>. Without sorting it keeps
  the labels of \<open>xs\<close> and appends the labels of \<open>ys\<close> that \<open>xs\<close> does not have, in
  their order; when \<open>ys\<close> repeats a label, every label comes as often as in the index
  that has it most often, in the order of first appearance.
\<close>

definition first_appearance :: "date list \<Rightarrow> date list" where
  "first_appearance xs = rev (remdups (rev xs))"

definition union_with_duplicates :: "date list \<Rightarrow> date list \<Rightarrow> date list" where
  "union_with_duplicates xs ys =
     concat (map (\<lambda>v. replicate (max (count_list xs v) (count_list ys v)) v)
                 (first_appearance (xs @ ys)))"

definition index_union :: "bool \<Rightarrow> date list \<Rightarrow> date list \<Rightarrow> date list" where
  "index_union sorting xs ys =
     (if ys = [] \<or> xs = ys then xs
      else if xs = [] then ys
      else
        let u = (if distinct ys then xs @ filter (\<lambda>y. y \<notin> set xs) ys
                 else union_with_duplicates xs ys)
        in if sorting then sort u else u)"

text \<open>\<open>df.reindex\<close> of one frame to one label: a label the frame does not have gives NaN.\<close>

definition reindex_column :: "matrix \<Rightarrow> date \<Rightarrow> cell list" where
  "reindex_column df day =
     (case map_of (columns df) day of
        None \<Rightarrow> replicate (length (index df)) None
      | Some c \<Rightarrow> c)"

text \<open>
  \<open>pd.concat(dfs)\<close> along the rows. Entries that are \<open>None\<close> are dropped by the caller
  below; with nothing left \<open>pd.concat\<close> raises \<open>ValueError\<close>. The new column labels are
  the union of the frames' labels, taken frame by frame from the left. The union is
  sorted only when every frame has a \<open>DatetimeIndex\<close> (\<open>all_dates\<close>); otherwise the
  indexes are compared as objects and the labels keep the order of first appearance. A
  frame whose labels are the new labels is taken as it is, by position; any other frame
  is reindexed to the new labels, which raises \<open>InvalidIndexError\<close> when the frame
  repeats a label.
\<close>

definition pd_concat :: "bool \<Rightarrow> matrix list \<Rightarrow> error + matrix" where
  "pd_concat all_dates dfs =
     (case dfs of
        [] \<Rightarrow> Inl ValueError
      | df0 # rest \<Rightarrow>
          let new_labels = foldl (index_union all_dates) (labels df0) (map labels rest) in
          if \<exists>df \<in> set dfs. labels df \<noteq> new_labels \<and> \<not> distinct (labels df)
          then Inl InvalidIndexError
          else Inr \<lparr>index = concat (map index dfs),
                    columns =
                      map (\<lambda>j. (new_labels ! j,
                                 concat (map (\<lambda>df. if labels df = new_labels
                                                    then snd (columns df ! j)
                                                    else reindex_column df (new_labels ! j))
                                             dfs)))
                          [0..<length new_labels]\<rparr>)"

text \<open>
  \<open>UKCovid19Data.get_cases_data\<close>. The England and Wales frames come from the pivot and
  have a \<open>DatetimeIndex\<close>; the Scotland loader adds and removes the text column
  \<open>Country\<close>, which leaves the dates of its frame in an index of objects. So every
  frame has a \<open>DatetimeIndex\<close> only when there is no Scotland frame.
\<close>

definition get_cases_data :: "class_state \<Rightarrow> error + matrix" where
  "get_cases_data s =
     (case pd_concat (scotland_cases_data s = None)
             (List.map_filter id
                [england_cases_data s, wales_cases_data s, scotland_cases_data s]) of
        Inl e \<Rightarrow> Inl e
      | Inr df \<Rightarrow> Inr (fillna 0 df))"

section \<open>Concrete inputs\<close>

text \<open>The two England records of the reshaping scenario, and an endpoint that answers them.\<close>

definition scenario_rows :: "uk_row list" where
  "scenario_rows =
     [\<lparr>areaCode = ''E1'', areaName = ''Areas A'', date = ymd 2021 1 1,
       newCasesBySpecimenDate = Some 5\<rparr>,
      \<lparr>areaCode = ''E1'', areaName = ''Area A'', date = ymd 2021 1 3,
       newCasesBySpecimenDate = Some 7\<rparr>]"

definition scenario_world :: world where
  "scenario_world = \<lparr>read_uk = (\<lambda>area_type. Some scenario_rows), read_scotland = None\<rparr>"

text \<open>\<open>loc\<close> on the result of a loader; a loader that raised has no cell.\<close>

definition loc_result :: "error + matrix \<Rightarrow> string \<times> string \<Rightarrow> date \<Rightarrow> cell option" where
  "loc_result r key day = (case r of Inl e \<Rightarrow> None | Inr df \<Rightarrow> loc df key day)"

text \<open>
  Endpoints that answer one English and one Welsh area, with different areas for the two
  area types, and one Scottish board with the cumulative counts 10, 15, 15, 20 on four
  consecutive days.
\<close>

definition uk_rows_of :: "string \<Rightarrow> uk_row list" where
  "uk_rows_of area_type =
     (if area_type = ''ltla''
      then [\<lparr>areaCode = ''E07'', areaName = ''Adur'', date = ymd 2021 1 1,
             newCasesBySpecimenDate = Some 2\<rparr>,
            \<lparr>areaCode = ''W06'', areaName = ''Cardiff'', date = ymd 2021 1 1,
             newCasesBySpecimenDate = Some 3\<rparr>]
      else [\<lparr>areaCode = ''E10'', areaName = ''Kent'', date = ymd 2021 1 1,
             newCasesBySpecimenDate = Some 5\<rparr>,
            \<lparr>areaCode = ''W06'', areaName = ''Cardiff'', date = ymd 2021 1 1,
             newCasesBySpecimenDate = Some 3\<rparr>])"

definition scotland_cumulative :: scotland_csv where
  "scotland_cumulative =
     \<lparr>boards = [''Fife''],
      lines = [(ymd 2021 1 1, [Num 10]), (ymd 2021 1 2, [Num 15]),
               (ymd 2021 1 3, [Num 15]), (ymd 2021 1 4, [Num 20])]\<rparr>"

definition world_up :: world where
  "world_up = \<lparr>read_uk = (\<lambda>area_type. Some (uk_rows_of area_type)),
               read_scotland = Some scotland_cumulative\<rparr>"

text \<open>The same endpoints while the dashboard request fails.\<close>

definition world_down :: world where
  "world_down = \<lparr>read_uk = (\<lambda>area_type. None),
                 read_scotland = Some scotland_cumulative\<rparr>"

text \<open>A Scotland file with no record for 2021-01-02.\<close>

definition world_gap :: world where
  "world_gap =
     \<lparr>read_uk = (\<lambda>area_type. Some (uk_rows_of area_type)),
      read_scotland = Some \<lparr>boards = [''Fife''],
                           lines = [(ymd 2021 1 1, [Num 10]), (ymd 2021 1 3, [Num 15])]\<rparr>\<rparr>"

text \<open>
  One construction with the defaults while every request succeeds; and three
  constructions, the second of which asks for the lower tier while the dashboard request
  fails.
\<close>

definition first_call :: "(world \<times> bool \<times> string) list" where
  "first_call = [(world_up, False, ''utla'')]"

definition calls_with_failure :: "(world \<times> bool \<times> string) list" where
  "calls_with_failure =
     [(world_up, False, ''utla''), (world_down, False, ''ltla''), (world_up, False, ''ltla'')]"

text \<open>What the upper-tier answer of \<open>world_up\<close> reshapes to for England.\<close>

definition kent_matrix :: matrix where
  "kent_matrix = \<lparr>index = [(''England'', ''Kent'')], columns = [(ymd 2021 1 1, [Some 5])]\<rparr>"

text \<open>
  A cache in which England and Wales span 2021-01-01 to 2021-01-05 and Scotland spans
  2021-01-03 to 2021-01-07.
\<close>

definition england_jan1_5 :: matrix where
  "england_jan1_5 =
     \<lparr>index = [(''England'', ''Kent'')],
      columns = [(ymd 2021 1 1, [Some 1]), (ymd 2021 1 2, [Some 2]), (ymd 2021 1 3, [Some 3]),
                 (ymd 2021 1 4, [Some 4]), (ymd 2021 1 5, [Some 5])]\<rparr>"

definition wales_jan1_5 :: matrix where
  "wales_jan1_5 =
     \<lparr>index = [(''Wales'', ''Cardiff'')],
      columns = [(ymd 2021 1 1, [Some 6]), (ymd 2021 1 2, [Some 7]), (ymd 2021 1 3, [Some 8]),
                 (ymd 2021 1 4, [Some 9]), (ymd 2021 1 5, [Some 10])]\<rparr>"

definition scotland_jan3_7 :: matrix where
  "scotland_jan3_7 =
     \<lparr>index = [(''Scotland'', ''Fife'')],
      columns = [(ymd 2021 1 3, [Some 11]), (ymd 2021 1 4, [Some 12]), (ymd 2021 1 5, [Some 13]),
                 (ymd 2021 1 6, [Some 14]), (ymd 2021 1 7, [Some 15])]\<rparr>"

definition uneven_cache :: class_state where
  "uneven_cache =
     \<lparr>england_cases_data = Some england_jan1_5,
      wales_cases_data = Some wales_jan1_5,
      wales_tests_data = None,
      scotland_cases_data = Some scotland_jan3_7,
      england_area_type = Some ''utla'',
      requests = []\<rparr>"

text \<open>A matrix with a NaN in each column, no column for 2021-01-02, and unsorted columns.\<close>

definition gap_matrix :: matrix where
  "gap_matrix = \<lparr>index = [(''England'', ''Kent''), (''England'', ''Leeds'')],
                  columns = [(ymd 2021 1 3, [Some 7, None]), (ymd 2021 1 1, [None, Some 4])]\<rparr>"

section \<open>Evaluation on the scenarios\<close>

lemmas backfill_defs =
  backfill_missing_data_def fillna_def labels_def fill_cell_def date_range_def
  setdiff1d_def set_column_def select_columns_def

lemma ymd_2021_01 [simp]:
  "ymd 2021 1 1 = 18628" "ymd 2021 1 2 = 18629" "ymd 2021 1 3 = 18630" "ymd 2021 1 4 = 18631"
  "ymd 2021 1 5 = 18632" "ymd 2021 1 6 = 18633" "ymd 2021 1 7 = 18634"
  by (simp_all add: ymd_def)

text \<open>
  Claim C3. Scotland, cumulative counts 10, 15, 15, 20 on four consecutive days: the claim
  expects the daily counts 10, 5, 0, 5. The loop stops above index 1, so the second
  column keeps its cumulative value: the code gives 10, 15, 0, 5.
\<close>

theorem scotland_scenario_keeps_second_cumulative:
  "load_scotland_cases_dataset world_up =
     Inr \<lparr>index = [(''Scotland'', ''Fife'')],
          columns = [(ymd 2021 1 1, [Some 10]), (ymd 2021 1 2, [Some 15]),
                     (ymd 2021 1 3, [Some 0]), (ymd 2021 1 4, [Some 5])]\<rparr>"
  by (simp add: load_scotland_cases_dataset_def world_up_def scotland_cumulative_def
      numeral_3_eq_3)

text \<open>
  Claim C2. The Scotland reshaper returns its frame without calling the backfill: a file
  with records for 2021-01-01 and 2021-01-03 only gives a matrix with exactly these two
  columns, so 2021-01-02, which lies between them, is no column.
\<close>

theorem scotland_gap_not_backfilled:
  "load_scotland_cases_dataset world_gap =
     Inr \<lparr>index = [(''Scotland'', ''Fife'')],
          columns = [(ymd 2021 1 1, [Some 10]), (ymd 2021 1 3, [Some 15])]\<rparr>"
  by (simp add: load_scotland_cases_dataset_def world_gap_def)

text \<open>
  Claim C7, as stated: the two records, reshaped and backfilled, give the row
  (England, Area A) the values 5, 0, 7 on 2021-01-01, 2021-01-02, 2021-01-03. This fails:
  the first record is named \<open>Areas A\<close>, and the pivot keys rows by area name.
\<close>

theorem england_scenario_counterexample:
  "\<not> (loc_result (load_cases_dataset scenario_world ''utla'' ''England'')
         (''England'', ''Area A'') (ymd 2021 1 1) = Some (Some 5)
      \<and> loc_result (load_cases_dataset scenario_world ''utla'' ''England'')
         (''England'', ''Area A'') (ymd 2021 1 2) = Some (Some 0)
      \<and> loc_result (load_cases_dataset scenario_world ''utla'' ''England'')
         (''England'', ''Area A'') (ymd 2021 1 3) = Some (Some 7))"
  by (simp add: loc_result_def loc_def load_cases_dataset_def scenario_world_def
      scenario_rows_def pivot_table_def mean_def backfill_defs Let_def upto.simps)

text \<open>
  Claim C7, amended: the two records give two rows, one per area name, in sorted order:
  (England, Area A) with 0, 0, 7 and (England, Areas A) with 5, 0, 0.
\<close>

theorem england_scenario_two_rows:
  "load_cases_dataset scenario_world ''utla'' ''England'' =
     Inr \<lparr>index = [(''England'', ''Area A''), (''England'', ''Areas A'')],
          columns = [(ymd 2021 1 1, [Some 0, Some 5]),
                     (ymd 2021 1 2, [Some 0, Some 0]),
                     (ymd 2021 1 3, [Some 7, Some 0])]\<rparr>"
  by (simp add: load_cases_dataset_def scenario_world_def
      scenario_rows_def pivot_table_def mean_def backfill_defs Let_def upto.simps)

text \<open>
  Claim C1. After a first construction all three datasets are cached. A second
  construction with the same area type and \<open>force_load\<close> false loads Wales again:
  \<open>wales_tests_data\<close> is never assigned, so the Wales condition is always true.
\<close>

theorem second_construction_reloads_wales:
  "snd (init world_up False ''utla'' class_initial) = None
   \<and> requests (fst (init world_up False ''utla'' class_initial)) =
       [LoadCases ''utla'' ''England'', LoadCases ''utla'' ''Wales'', LoadScotland]
   \<and> requests (fst (init world_up False ''utla''
                      (fst (init world_up False ''utla'' class_initial)))) =
       [LoadCases ''utla'' ''England'', LoadCases ''utla'' ''Wales'', LoadScotland,
        LoadCases ''utla'' ''Wales'']"
  by code_simp

section \<open>The backfill normalizer: what it returns\<close>

lemma filter_upto_sorted_distinct:
  "sorted (filter P [lo..hi::int]) \<and> distinct (filter P [lo..hi])"
  by (simp add: sorted_filter[where f="\<lambda>x. x", simplified])

lemma setdiff1d_upto:
  "setdiff1d [lo..hi] ys = filter (\<lambda>x. x \<notin> set ys) [lo..hi]"
  unfolding setdiff1d_def
  by (simp add: distinct_remdups_id sort_key_id_if_sorted[where f="\<lambda>x. x", simplified] sorted_filter[where f="\<lambda>x. x", simplified])

lemma foldl_set_column_fresh:
  "distinct ms \<Longrightarrow> set ms \<inter> set (labels f) = {} \<Longrightarrow>
   foldl (\<lambda>f d. set_column f d v) f ms =
     f\<lparr>columns := columns f @ map (\<lambda>d. (d, replicate (length (index f)) (Some v))) ms\<rparr>"
proof (induction ms arbitrary: f)
  case Nil
  then show ?case by simp
next
  case (Cons m ms)
  let ?g = "set_column f m v"
  from Cons.prems have fresh: "m \<notin> set (labels f)" by auto
  then have g: "?g = f\<lparr>columns := columns f @ [(m, replicate (length (index f)) (Some v))]\<rparr>"
    by (simp add: set_column_def)
  have "set ms \<inter> set (labels ?g) = {}"
    using Cons.prems by (auto simp: g labels_def)
  moreover have "distinct ms" using Cons.prems by simp
  ultimately have "foldl (\<lambda>f d. set_column f d v) ?g ms =
     ?g\<lparr>columns := columns ?g @ map (\<lambda>d. (d, replicate (length (index ?g)) (Some v))) ms\<rparr>"
    using Cons.IH by blast
  then show ?case by (simp add: g)
qed

lemma filter_key_distinct:
  "distinct (map fst cs) \<Longrightarrow> k \<in> fst ` set cs \<Longrightarrow>
   filter (\<lambda>c. fst c = k) cs = [(k, the (map_of cs k))]"
proof (induction cs)
  case Nil
  then show ?case by simp
next
  case (Cons c cs)
  show ?case
  proof (cases "fst c = k")
    case True
    with Cons.prems(1) have "k \<notin> fst ` set cs" by auto
    then have "filter (\<lambda>c. fst c = k) cs = []"
      by (auto simp: filter_empty_conv)
    with True show ?thesis by (cases c) auto
  next
    case False
    with Cons have "filter (\<lambda>c. fst c = k) cs = [(k, the (map_of cs k))]" by auto
    with False show ?thesis by (cases c) auto
  qed
qed

lemma select_distinct:
  "distinct (map fst cs) \<Longrightarrow> set ks \<subseteq> fst ` set cs \<Longrightarrow>
   concat (map (\<lambda>k. filter (\<lambda>c. fst c = k) cs) ks) = map (\<lambda>k. (k, the (map_of cs k))) ks"
  by (induction ks) (simp_all add: filter_key_distinct)


lemma labels_fillna [simp]: "labels (fillna v df) = labels df"
  by (simp add: labels_def fillna_def case_prod_unfold comp_def)

lemma index_fillna [simp]: "index (fillna v df) = index df"
  by (simp add: fillna_def)

lemma map_of_fillna:
  "map_of (columns (fillna v df)) k = map_option (map (fill_cell v)) (map_of (columns df) k)"
  by (simp add: fillna_def map_of_map)

lemma map_of_zero_columns:
  "map_of (map (\<lambda>d. (d, g d)) ms) k = (if k \<in> set ms then Some (g k) else None)"
  by (induction ms) auto

lemma sort_is_upto:
  assumes "distinct xs" "set xs = {lo..hi::int}"
  shows "sort xs = [lo..hi]"
proof (rule sorted_distinct_set_unique)
  show "sorted (sort xs)" by simp
  show "distinct (sort xs)" using assms(1) by simp
  show "sorted [lo..hi]" by simp
  show "distinct [lo..hi]" by simp
  show "set (sort xs) = set [lo..hi]" using assms(2) by simp
qed

lemma select_columns_distinct:
  assumes "distinct (labels f)" "set ks \<subseteq> set (labels f)"
  shows "columns (select_columns f ks) = map (\<lambda>k. (k, the (map_of (columns f) k))) ks"
proof -
  have "distinct (map fst (columns f))" using assms(1) by (simp add: labels_def)
  moreover have "set ks \<subseteq> fst ` set (columns f)" using assms(2) by (simp add: labels_def)
  ultimately show ?thesis
    by (simp add: select_columns_def select_distinct)
qed

lemma backfill_char:
  assumes d: "distinct (labels df0)" and ne: "labels df0 \<noteq> []"
  shows "backfill_missing_data df0 =
           Inr \<lparr>index = index df0,
                columns = map (\<lambda>k. (k, bcol df0 k))
                              [Min (set (labels df0))..Max (set (labels df0))]\<rparr>"
proof -
  let ?df = "fillna 0 df0"
  let ?L = "labels df0"
  let ?lo = "Min (set ?L)" and ?hi = "Max (set ?L)"
  let ?ms = "filter (\<lambda>x. x \<notin> set ?L) [?lo..?hi]"
  let ?zeros = "map (\<lambda>d. (d, replicate (length (index df0)) (Some (0::real)))) ?ms"
  let ?df1 = "?df\<lparr>columns := columns ?df @ ?zeros\<rparr>"
  have sub: "set ?L \<subseteq> {?lo..?hi}" using ne by auto
  have ms: "setdiff1d (date_range ?lo ?hi) (labels ?df) = ?ms"
    by (simp add: date_range_def setdiff1d_upto)
  have fold: "foldl (\<lambda>f missing_day. set_column f missing_day 0) ?df ?ms = ?df1"
    using foldl_set_column_fresh[of ?ms ?df 0] by auto
  have l1: "labels ?df1 = ?L @ ?ms"
    using labels_fillna[of 0 df0] by (simp add: labels_def comp_def)
  have d1: "distinct (labels ?df1)" unfolding l1 using d by auto
  have s1: "set (labels ?df1) = {?lo..?hi}" unfolding l1 using sub by auto
  have srt: "sort (labels ?df1) = [?lo..?hi]" using d1 s1 by (rule sort_is_upto)
  have sel: "columns (select_columns ?df1 [?lo..?hi]) =
               map (\<lambda>k. (k, the (map_of (columns ?df1) k))) [?lo..?hi]"
    using d1 by (rule select_columns_distinct) (simp add: s1)
  have col: "the (map_of (columns ?df1) k) = bcol df0 k" if "k \<in> set [?lo..?hi]" for k
  proof (cases "map_of (columns df0) k")
    case None
    then have "k \<notin> set ?L" by (simp add: map_of_eq_None_iff labels_def)
    with that have "k \<in> set ?ms" by simp
    then have "map_of ?zeros k = Some (replicate (length (index df0)) (Some 0))"
      by (simp only: map_of_zero_columns if_True)
    moreover have "map_of (columns ?df) k = None" using None by (simp add: map_of_fillna)
    ultimately show ?thesis using None by (simp add: bcol_def map_add_def)
  next
    case (Some c)
    then have "map_of (columns ?df) k = Some (map (fill_cell 0) c)" by (simp add: map_of_fillna)
    then show ?thesis using Some by (simp add: bcol_def map_add_def)
  qed
  have "columns (select_columns ?df1 [?lo..?hi]) = map (\<lambda>k. (k, bcol df0 k)) [?lo..?hi]"
    unfolding sel using col by (simp cong: map_cong)
  moreover have "index (select_columns ?df1 [?lo..?hi]) = index df0"
    by (simp add: select_columns_def)
  ultimately have res: "select_columns ?df1 [?lo..?hi] =
      \<lparr>index = index df0, columns = map (\<lambda>k. (k, bcol df0 k)) [?lo..?hi]\<rparr>"
    by (intro matrix.equality) simp_all
  have "backfill_missing_data df0 = Inr (select_columns ?df1 (sort (labels ?df1)))"
    unfolding backfill_missing_data_def Let_def using ne ms fold by simp
  then show ?thesis unfolding srt res .
qed


lemma fill_cell_fill_cell: "fill_cell v (fill_cell v x) = fill_cell v x"
  by (cases x) (simp_all add: fill_cell_def)

lemma fill_bcol: "map (fill_cell 0) (bcol df k) = bcol df k"
  by (simp add: bcol_def fill_cell_fill_cell fill_cell_def split: option.split)

lemma Min_Max_labels:
  assumes "labels df \<noteq> []"
  shows "Min (set (labels df)) \<le> Max (set (labels df))"
  using assms by (simp add: Min_le_iff) 

lemma Min_interval: "(a::int) \<le> b \<Longrightarrow> Min {a..b} = a"
  by (rule Min_eqI) auto

lemma Max_interval: "(a::int) \<le> b \<Longrightarrow> Max {a..b} = b"
  by (rule Max_eqI) auto

text \<open>
  Claim C4. The backfill is idempotent: on a matrix whose columns are keyed by distinct
  dates, with at least one column, it returns a matrix, and applied to that matrix it
  returns the same matrix again. (With no column the first application already raises.)
\<close>

theorem backfill_idempotent:
  assumes "distinct (labels df)" and "labels df \<noteq> []"
  shows "\<exists>d. backfill_missing_data df = Inr d \<and> backfill_missing_data d = Inr d"
proof -
  let ?lo = "Min (set (labels df))" and ?hi = "Max (set (labels df))"
  let ?d = "\<lparr>index = index df, columns = map (\<lambda>k. (k, bcol df k)) [?lo..?hi]\<rparr>"
  have le: "?lo \<le> ?hi" using assms(2) by (rule Min_Max_labels)
  have first: "backfill_missing_data df = Inr ?d" using assms by (rule backfill_char)
  have ld: "labels ?d = [?lo..?hi]" by (simp add: labels_def comp_def)
  have dd: "distinct (labels ?d)" and nd: "labels ?d \<noteq> []" using le by (simp_all add: ld)
  have mm: "Min (set (labels ?d)) = ?lo" "Max (set (labels ?d)) = ?hi"
    unfolding ld using le by (simp_all add: Min_interval Max_interval)
  have col: "bcol ?d k = bcol df k" if "k \<in> set [?lo..?hi]" for k
  proof -
    have "map_of (columns ?d) k = Some (bcol df k)"
      using that by (simp add: map_of_zero_columns)
    then show ?thesis by (simp add: bcol_def[of ?d] fill_bcol)
  qed
  have "backfill_missing_data ?d =
          Inr \<lparr>index = index ?d, columns = map (\<lambda>k. (k, bcol ?d k)) [?lo..?hi]\<rparr>"
    using backfill_char[OF dd nd] unfolding mm .
  also have "map (\<lambda>k. (k, bcol ?d k)) [?lo..?hi] = map (\<lambda>k. (k, bcol df k)) [?lo..?hi]"
    using col by (simp cong: map_cong)
  finally have "backfill_missing_data ?d = Inr ?d" by simp
  with first show ?thesis by blast
qed

text \<open>On \<open>gap_matrix\<close>: what the backfill returns is returned unchanged by a second run.\<close>

lemma backfill_gap_matrix:
  "backfill_missing_data gap_matrix =
     Inr \<lparr>index = [(''England'', ''Kent''), (''England'', ''Leeds'')],
          columns = [(ymd 2021 1 1, [Some 0, Some 4]), (ymd 2021 1 2, [Some 0, Some 0]),
                     (ymd 2021 1 3, [Some 7, Some 0])]\<rparr>"
  by (simp add: gap_matrix_def backfill_defs Let_def upto.simps)

theorem backfill_idempotent_witness:
  "distinct (labels gap_matrix) \<and> labels gap_matrix \<noteq> [] \<and>
   backfill_missing_data
     \<lparr>index = [(''England'', ''Kent''), (''England'', ''Leeds'')],
      columns = [(ymd 2021 1 1, [Some 0, Some 4]), (ymd 2021 1 2, [Some 0, Some 0]),
                 (ymd 2021 1 3, [Some 7, Some 0])]\<rparr> =
   Inr \<lparr>index = [(''England'', ''Kent''), (''England'', ''Leeds'')],
        columns = [(ymd 2021 1 1, [Some 0, Some 4]), (ymd 2021 1 2, [Some 0, Some 0]),
                   (ymd 2021 1 3, [Some 7, Some 0])]\<rparr>"
proof -
  have h1: "distinct (labels gap_matrix)" and h2: "labels gap_matrix \<noteq> []"
    by (simp_all add: gap_matrix_def labels_def)
  from backfill_idempotent[OF h1 h2] backfill_gap_matrix h1 h2
  show ?thesis by auto
qed

text \<open>
  Claim C9. The backfill never alters reported data. On a matrix whose columns are keyed
  by distinct dates, with at least one column, it returns a matrix with the same row
  keys, whose column labels are the days from the smallest to the largest label in
  ascending order; every column of the input is a column of the output under the same
  date, with each reported value kept at its row and each NaN replaced by 0.0; and every
  column of the output is such a column, or a column of zeros for a date the input
  did not have.
\<close>

theorem backfill_keeps_reported_data:
  assumes "distinct (labels df)" and "labels df \<noteq> []"
  shows "\<exists>d. backfill_missing_data df = Inr d
           \<and> index d = index df
           \<and> labels d = [Min (set (labels df))..Max (set (labels df))]
           \<and> (\<forall>day c. (day, c) \<in> set (columns df) \<longrightarrow>
                 (day, map (\<lambda>x. case x of None \<Rightarrow> Some 0 | Some v \<Rightarrow> Some v) c) \<in> set (columns d))
           \<and> (\<forall>day c. (day, c) \<in> set (columns d) \<longrightarrow>
                 (\<exists>c0. (day, c0) \<in> set (columns df)
                       \<and> c = map (\<lambda>x. case x of None \<Rightarrow> Some 0 | Some v \<Rightarrow> Some v) c0)
                 \<or> (day \<notin> set (labels df) \<and> c = replicate (length (index df)) (Some 0)))"
proof -
  let ?lo = "Min (set (labels df))" and ?hi = "Max (set (labels df))"
  let ?f = "\<lambda>x::cell. case x of None \<Rightarrow> Some 0 | Some v \<Rightarrow> Some v"
  let ?d = "\<lparr>index = index df, columns = map (\<lambda>k. (k, bcol df k)) [?lo..?hi]\<rparr>"
  have f: "fill_cell 0 = ?f" by (rule ext) (simp add: fill_cell_def)
  have first: "backfill_missing_data df = Inr ?d" using assms by (rule backfill_char)
  have ld: "labels ?d = [?lo..?hi]" by (simp add: labels_def comp_def)
  have sub: "set (labels df) \<subseteq> {?lo..?hi}" using assms(2) by auto
  have kept: "(day, map ?f c) \<in> set (columns ?d)" if "(day, c) \<in> set (columns df)" for day c
  proof -
    have "map_of (columns df) day = Some c"
      using that assms(1) by (simp add: labels_def)
    then have "bcol df day = map ?f c" by (simp add: bcol_def f)
    moreover have "day \<in> {?lo..?hi}" using that sub by (force simp: labels_def)
    ultimately show ?thesis by force
  qed
  have only: "(\<exists>c0. (day, c0) \<in> set (columns df) \<and> c = map ?f c0)
                 \<or> (day \<notin> set (labels df) \<and> c = replicate (length (index df)) (Some 0))"
    if "(day, c) \<in> set (columns ?d)" for day c
  proof -
    from that have c: "c = bcol df day" by auto
    show ?thesis
    proof (cases "map_of (columns df) day")
      case None
      then have "day \<notin> set (labels df)" by (simp add: map_of_eq_None_iff labels_def)
      with None c show ?thesis by (simp add: bcol_def)
    next
      case (Some c0)
      then have "(day, c0) \<in> set (columns df)" by (rule map_of_SomeD)
      with Some c show ?thesis by (auto simp: bcol_def f)
    qed
  qed
  from first ld kept only show ?thesis by (intro exI[of _ ?d]) simp
qed


theorem backfill_keeps_reported_data_witness:
  "distinct (labels gap_matrix) \<and> labels gap_matrix \<noteq> [] \<and>
   (\<exists>d. backfill_missing_data gap_matrix = Inr d
      \<and> index d = index gap_matrix
      \<and> labels d = [ymd 2021 1 1, ymd 2021 1 2, ymd 2021 1 3]
      \<and> (ymd 2021 1 3, [Some 7, Some 0]) \<in> set (columns d)
      \<and> (ymd 2021 1 1, [Some 0, Some 4]) \<in> set (columns d))"
proof -
  have h1: "distinct (labels gap_matrix)" and h2: "labels gap_matrix \<noteq> []"
    by (simp_all add: gap_matrix_def labels_def)
  from backfill_keeps_reported_data[OF h1 h2] obtain d where
    d: "backfill_missing_data gap_matrix = Inr d" "index d = index gap_matrix"
       "labels d = [Min (set (labels gap_matrix))..Max (set (labels gap_matrix))]"
       "\<forall>day c. (day, c) \<in> set (columns gap_matrix) \<longrightarrow>
          (day, map (\<lambda>x. case x of None \<Rightarrow> Some 0 | Some v \<Rightarrow> Some v) c) \<in> set (columns d)"
    by blast
  have "labels d = [ymd 2021 1 1, ymd 2021 1 2, ymd 2021 1 3]"
    unfolding d(3) by (simp add: gap_matrix_def labels_def upto.simps)
  moreover have "(ymd 2021 1 3, [Some 7, Some 0]) \<in> set (columns d)"
    using d(4)[rule_format, of "ymd 2021 1 3" "[Some 7, None]"] by (simp add: gap_matrix_def)
  moreover have "(ymd 2021 1 1, [Some 0, Some 4]) \<in> set (columns d)"
    using d(4)[rule_format, of "ymd 2021 1 1" "[None, Some 4]"] by (simp add: gap_matrix_def)
  ultimately show ?thesis using h1 h2 d(1,2) by blast
qed

section \<open>The cumulative-to-daily loop\<close>

lemma length_cumulative_to_daily [simp]:
  "length (cumulative_to_daily i cs) = length cs"
  by (induction i cs rule: cumulative_to_daily.induct) simp_all

lemma cumulative_to_daily_nth:
  "i < length cs \<Longrightarrow> j < length cs \<Longrightarrow>
   cumulative_to_daily i cs ! j =
     (if 2 \<le> j \<and> j \<le> i
      then (fst (cs ! j), map2 sub (snd (cs ! j)) (snd (cs ! (j - 1))))
      else cs ! j)"
proof (induction i cs rule: cumulative_to_daily.induct)
  case (1 cs)
  then show ?case by auto
next
  case (2 cs)
  then show ?case by auto
next
  case (3 k cs)
  let ?i = "Suc (Suc k)"
  let ?cs = "cs[?i := (fst (cs ! ?i), map2 sub (snd (cs ! ?i)) (snd (cs ! Suc k)))]"
  have ih: "cumulative_to_daily (Suc k) ?cs ! j =
     (if 2 \<le> j \<and> j \<le> Suc k
      then (fst (?cs ! j), map2 sub (snd (?cs ! j)) (snd (?cs ! (j - 1))))
      else ?cs ! j)"
    using "3.IH"[of ] "3.prems" by simp
  show ?case
  proof (cases "j = ?i")
    case True
    then show ?thesis using ih "3.prems" by simp
  next
    case False
    then have "?cs ! j = cs ! j" by simp
    moreover have "j \<le> Suc k \<Longrightarrow> ?cs ! (j - 1) = cs ! (j - 1)" by simp
    ultimately show ?thesis using ih False by auto
  qed
qed

text \<open>
  Claim C8. When the Scotland file is read and converted without error and has at least
  three records (date columns), the loader returns a matrix with as many columns, in
  which every column \<open>i \<ge> 2\<close> is the original cumulative column \<open>i\<close> minus the
  original cumulative column \<open>i - 1\<close>, cell by cell and under the label of column
  \<open>i\<close>, and columns 0 and 1 are the original cumulative columns.
\<close>

theorem scotland_daily_from_index_two:
  assumes "read_scotland w = Some csv"
    and "convert_columns (lines csv) = Inr cs"
    and "3 \<le> length cs"
  shows "\<exists>df. load_scotland_cases_dataset w = Inr df
           \<and> length (columns df) = length cs
           \<and> columns df ! 0 = cs ! 0
           \<and> columns df ! 1 = cs ! 1
           \<and> (\<forall>i. 2 \<le> i \<and> i < length cs \<longrightarrow>
                 columns df ! i = (fst (cs ! i), map2 sub (snd (cs ! i)) (snd (cs ! (i - 1)))))"
proof -
  let ?out = "cumulative_to_daily (length cs - 1) cs"
  have n: "length cs - 1 < length cs" using assms(3) by linarith
  have "load_scotland_cases_dataset w =
          Inr \<lparr>index = map (Pair ''Scotland'') (boards csv), columns = ?out\<rparr>"
    by (simp add: load_scotland_cases_dataset_def assms(1,2))
  moreover have "?out ! 0 = cs ! 0"
  proof -
    have "0 < length cs" using assms(3) by linarith
    from cumulative_to_daily_nth[OF n this] show ?thesis by simp
  qed
  moreover have "?out ! 1 = cs ! 1"
  proof -
    have "1 < length cs" using assms(3) by linarith
    from cumulative_to_daily_nth[OF n this] show ?thesis by simp
  qed
  moreover have "\<forall>i. 2 \<le> i \<and> i < length cs \<longrightarrow>
      ?out ! i = (fst (cs ! i), map2 sub (snd (cs ! i)) (snd (cs ! (i - 1))))"
  proof (intro allI impI)
    fix i assume i: "2 \<le> i \<and> i < length cs"
    then have lt: "i < length cs" and rng: "2 \<le> i \<and> i \<le> length cs - 1" by linarith+
    have "?out ! i =
            (if 2 \<le> i \<and> i \<le> length cs - 1
             then (fst (cs ! i), map2 sub (snd (cs ! i)) (snd (cs ! (i - 1))))
             else cs ! i)"
      by (rule cumulative_to_daily_nth[OF n lt])
    also have "\<dots> = (fst (cs ! i), map2 sub (snd (cs ! i)) (snd (cs ! (i - 1))))"
      using rng by (rule if_P)
    finally show "?out ! i = (fst (cs ! i), map2 sub (snd (cs ! i)) (snd (cs ! (i - 1))))" .
  qed
  ultimately show ?thesis by simp
qed

theorem scotland_daily_from_index_two_witness:
  "read_scotland world_up = Some scotland_cumulative
   \<and> convert_columns (lines scotland_cumulative) =
       Inr [(ymd 2021 1 1, [Some 10]), (ymd 2021 1 2, [Some 15]),
            (ymd 2021 1 3, [Some 15]), (ymd 2021 1 4, [Some 20])]
   \<and> (3::nat) \<le> length [(ymd 2021 1 1, [Some (10::real)]), (ymd 2021 1 2, [Some 15]),
            (ymd 2021 1 3, [Some 15]), (ymd 2021 1 4, [Some 20])]
   \<and> (\<exists>df. load_scotland_cases_dataset world_up = Inr df
         \<and> columns df ! 0 = (ymd 2021 1 1, [Some 10])
         \<and> columns df ! 1 = (ymd 2021 1 2, [Some 15])
         \<and> columns df ! 2 = (ymd 2021 1 3, [Some 0])
         \<and> columns df ! 3 = (ymd 2021 1 4, [Some 5]))"
proof -
  let ?cs = "[(ymd 2021 1 1, [Some (10::real)]), (ymd 2021 1 2, [Some 15]),
            (ymd 2021 1 3, [Some 15]), (ymd 2021 1 4, [Some 20])]"
  have h1: "read_scotland world_up = Some scotland_cumulative" by (simp add: world_up_def)
  have h2: "convert_columns (lines scotland_cumulative) = Inr ?cs"
    by (simp add: scotland_cumulative_def)
  have h3: "3 \<le> length ?cs" by simp
  from scotland_daily_from_index_two[OF h1 h2 h3] obtain df where
    df: "load_scotland_cases_dataset world_up = Inr df" "columns df ! 0 = ?cs ! 0"
        "columns df ! 1 = ?cs ! 1"
        "\<forall>i. 2 \<le> i \<and> i < length ?cs \<longrightarrow>
            columns df ! i = (fst (?cs ! i), map2 sub (snd (?cs ! i)) (snd (?cs ! (i - 1))))"
    by blast
  have "columns df ! 2 = (ymd 2021 1 3, [Some 0])"
    using df(4)[rule_format, of 2] by simp
  moreover have "columns df ! 3 = (ymd 2021 1 4, [Some 5])"
    using df(4)[rule_format, of 3] by simp
  ultimately show ?thesis using h1 h2 df(1,2,3) by simp
qed


section \<open>The constructor and the cache\<close>

lemmas init_defs = init_def init_england_def init_wales_def init_scotland_def

lemma backfill_error: "backfill_missing_data df = Inl e \<Longrightarrow> e = ValueError"
  by (auto simp: backfill_missing_data_def Let_def split: if_splits)

lemma load_cases_dataset_error:
  "load_cases_dataset w t c = Inl e \<Longrightarrow> e \<noteq> AttributeError"
  by (auto simp: load_cases_dataset_def split: option.splits list.splits dest: backfill_error)

lemma to_floats_error: "to_floats xs = Inl e \<Longrightarrow> e = ValueError"
proof (induction xs)
  case Nil
  then show ?case by simp
next
  case (Cons x xs)
  then show ?case by (cases x) (auto split: sum.splits)
qed

lemma convert_columns_error: "convert_columns cs = Inl e \<Longrightarrow> e = ValueError"
  by (induction cs rule: convert_columns.induct)
     (auto split: sum.splits dest: to_floats_error)

lemma load_scotland_error:
  "load_scotland_cases_dataset w = Inl e \<Longrightarrow> e \<noteq> AttributeError"
  by (auto simp: load_scotland_cases_dataset_def split: option.splits sum.splits
      dest: convert_columns_error)

lemma cache_inv_init: "cache_inv s \<Longrightarrow> cache_inv (fst (init w f t s))"
  by (auto simp: cache_inv_def init_defs Let_def split: sum.splits option.splits if_splits)

lemma cache_inv_constructions:
  "cache_inv s \<Longrightarrow> cache_inv (constructions calls s)"
  by (induction calls s rule: constructions.induct) (simp_all add: cache_inv_init)

lemma cache_inv_reached: "cache_inv (constructions calls class_initial)"
  by (rule cache_inv_constructions) (simp add: cache_inv_def class_initial_def)

text \<open>
  Claim C6. In every state a process reaches in which the three datasets are cached:
  a construction with \<open>force_load\<close> true calls the England loader, then the Wales loader,
  then the Scotland loader, each one unless the one before raised (which ends the
  construction), so a construction that returns has issued all three; and a construction
  with \<open>force_load\<close> false and an area type other than the cached one calls the England
  loader and then, unless that raised, the Wales loader, and does not call the Scotland
  loader.
\<close>

theorem reload_requests:
  assumes "s = constructions calls class_initial"
    and "england_cases_data s \<noteq> None"
    and "wales_cases_data s \<noteq> None"
    and "scotland_cases_data s \<noteq> None"
  shows "requests (fst (init w True t s)) =
           requests s @
           (if isl (load_cases_dataset w t ''England'') then [LoadCases t ''England'']
            else if isl (load_cases_dataset w t ''Wales'')
            then [LoadCases t ''England'', LoadCases t ''Wales'']
            else [LoadCases t ''England'', LoadCases t ''Wales'', LoadScotland])
         \<and> (snd (init w True t s) = None \<longrightarrow>
              requests (fst (init w True t s)) =
                requests s @ [LoadCases t ''England'', LoadCases t ''Wales'', LoadScotland])
         \<and> (england_area_type s \<noteq> Some t \<longrightarrow>
              requests (fst (init w False t s)) =
                requests s @
                (if isl (load_cases_dataset w t ''England'') then [LoadCases t ''England'']
                 else [LoadCases t ''England'', LoadCases t ''Wales'']))
         \<and> (england_area_type s \<noteq> Some t \<and> snd (init w False t s) = None \<longrightarrow>
              requests (fst (init w False t s)) =
                requests s @ [LoadCases t ''England'', LoadCases t ''Wales''])"
proof -
  have inv: "cache_inv s" unfolding assms(1) by (rule cache_inv_reached)
  then have wt: "wales_tests_data s = None" by (simp add: cache_inv_def)
  from inv assms(2) obtain cached where cached: "england_area_type s = Some cached"
    by (auto simp: cache_inv_def)
  have a: "requests (fst (init w True t s)) =
           requests s @
           (if isl (load_cases_dataset w t ''England'') then [LoadCases t ''England'']
            else if isl (load_cases_dataset w t ''Wales'')
            then [LoadCases t ''England'', LoadCases t ''Wales'']
            else [LoadCases t ''England'', LoadCases t ''Wales'', LoadScotland])"
    by (simp add: init_defs Let_def split: sum.splits)
  have b: "snd (init w True t s) = None \<longrightarrow>
              requests (fst (init w True t s)) =
                requests s @ [LoadCases t ''England'', LoadCases t ''Wales'', LoadScotland]"
    by (simp add: init_defs Let_def split: sum.splits)
  have c: "england_area_type s \<noteq> Some t \<longrightarrow>
              requests (fst (init w False t s)) =
                requests s @
                (if isl (load_cases_dataset w t ''England'') then [LoadCases t ''England'']
                 else [LoadCases t ''England'', LoadCases t ''Wales''])"
    using assms(2,4) wt cached by (auto simp: init_defs Let_def split: sum.splits)
  have d: "england_area_type s \<noteq> Some t \<and> snd (init w False t s) = None \<longrightarrow>
              requests (fst (init w False t s)) =
                requests s @ [LoadCases t ''England'', LoadCases t ''Wales'']"
    using assms(2,4) wt cached by (auto simp: init_defs Let_def split: sum.splits)
  from a b c d show ?thesis by blast
qed


lemma load_england_utla: "load_cases_dataset world_up ''utla'' ''England'' = Inr kent_matrix"
  by code_simp

lemma load_england_ltla:
  "load_cases_dataset world_up ''ltla'' ''England'' =
     Inr \<lparr>index = [(''England'', ''Adur'')], columns = [(ymd 2021 1 1, [Some 2])]\<rparr>"
  by code_simp

lemma load_wales_ltla:
  "load_cases_dataset world_up ''ltla'' ''Wales'' =
     Inr \<lparr>index = [(''Wales'', ''Cardiff'')], columns = [(ymd 2021 1 1, [Some 3])]\<rparr>"
  by code_simp

lemma first_call_state:
  "constructions first_call class_initial =
     \<lparr>england_cases_data = Some kent_matrix,
      wales_cases_data = Some \<lparr>index = [(''Wales'', ''Cardiff'')], columns = [(ymd 2021 1 1, [Some 3])]\<rparr>,
      wales_tests_data = None,
      scotland_cases_data = Some \<lparr>index = [(''Scotland'', ''Fife'')],
          columns = [(ymd 2021 1 1, [Some 10]), (ymd 2021 1 2, [Some 15]),
                     (ymd 2021 1 3, [Some 0]), (ymd 2021 1 4, [Some 5])]\<rparr>,
      england_area_type = Some ''utla'',
      requests = [LoadCases ''utla'' ''England'', LoadCases ''utla'' ''Wales'', LoadScotland]\<rparr>"
  by code_simp

theorem reload_requests_witness:
  "england_cases_data (constructions first_call class_initial) \<noteq> None
   \<and> wales_cases_data (constructions first_call class_initial) \<noteq> None
   \<and> scotland_cases_data (constructions first_call class_initial) \<noteq> None
   \<and> england_area_type (constructions first_call class_initial) \<noteq> Some ''ltla''
   \<and> requests (fst (init world_up True ''ltla'' (constructions first_call class_initial))) =
       [LoadCases ''utla'' ''England'', LoadCases ''utla'' ''Wales'', LoadScotland,
        LoadCases ''ltla'' ''England'', LoadCases ''ltla'' ''Wales'', LoadScotland]
   \<and> requests (fst (init world_up False ''ltla'' (constructions first_call class_initial))) =
       [LoadCases ''utla'' ''England'', LoadCases ''utla'' ''Wales'', LoadScotland,
        LoadCases ''ltla'' ''England'', LoadCases ''ltla'' ''Wales'']"
proof -
  let ?s = "constructions first_call class_initial"
  have h: "england_cases_data ?s \<noteq> None" "wales_cases_data ?s \<noteq> None"
    "scotland_cases_data ?s \<noteq> None"
    by (simp_all add: first_call_state)
  have t: "england_area_type ?s \<noteq> Some ''ltla''" by (simp add: first_call_state)
  have r: "requests ?s = [LoadCases ''utla'' ''England'', LoadCases ''utla'' ''Wales'', LoadScotland]"
    by (simp add: first_call_state)
  from reload_requests[OF refl h, of world_up "''ltla''"] t
  show ?thesis using h by (simp add: load_england_ltla load_wales_ltla r)
qed


lemma init_not_attribute_error:
  assumes "cache_inv s"
  shows "snd (init w f t s) \<noteq> Some AttributeError"
proof -
  have e: "load_cases_dataset w t ''England'' \<noteq> Inl AttributeError"
    and wl: "load_cases_dataset w t ''Wales'' \<noteq> Inl AttributeError"
    and sc: "load_scotland_cases_dataset w \<noteq> Inl AttributeError"
    using load_cases_dataset_error load_scotland_error by blast+
  show ?thesis
    using assms e wl sc
    by (auto simp: cache_inv_def init_defs Let_def split: sum.splits option.splits if_splits)
qed

lemma init_england_kept_or_loaded:
  assumes "snd (init_england w f t s) = None"
  shows "england_area_type (fst (init_england w f t s)) = Some t
         \<and> (\<exists>df. england_cases_data (fst (init_england w f t s)) = Some df
               \<and> (load_cases_dataset w t ''England'' = Inr df
                  \<or> england_cases_data s = Some df \<and> england_area_type s = Some t))"
proof (cases "england_cases_data s = None \<or> f")
  case True
  with assms show ?thesis
    by (cases "load_cases_dataset w t ''England''") (auto simp: init_england_def Let_def)
next
  case False
  show ?thesis
  proof (cases "england_area_type s")
    case None
    with False assms show ?thesis by (auto simp: init_england_def Let_def)
  next
    case (Some cached)
    show ?thesis
    proof (cases "cached = t")
      case True
      with False Some show ?thesis by (auto simp: init_england_def Let_def)
    next
      case ne: False
      with False Some assms show ?thesis
        by (cases "load_cases_dataset w t ''England''") (auto simp: init_england_def Let_def)
    qed
  qed
qed

lemma init_wales_england [simp]:
  "england_cases_data (fst (init_wales w f t s)) = england_cases_data s"
  "england_area_type (fst (init_wales w f t s)) = england_area_type s"
  by (simp_all add: init_wales_def Let_def split: sum.splits)

lemma init_scotland_england [simp]:
  "england_cases_data (fst (init_scotland w f s)) = england_cases_data s"
  "england_area_type (fst (init_scotland w f s)) = england_area_type s"
  by (simp_all add: init_scotland_def Let_def split: sum.splits)

lemma init_returns:
  assumes "snd (init w f t s) = None"
  shows "snd (init_england w f t s) = None"
    and "fst (init w f t s) =
           fst (init_scotland w f (fst (init_wales w f t (fst (init_england w f t s)))))"
  using assms
  by (simp_all add: init_def split: prod.splits option.splits)

lemma init_england_ignores_area_type:
  assumes "england_cases_data s = None \<or> f"
  shows "init_england w f t (s\<lparr>england_area_type := a\<rparr>) = init_england w f t s"
  using assms by (auto simp: init_england_def Let_def split: sum.splits)

text \<open>
  What holds of the constructor in every state a process reaches: a cached England
  dataset comes with an assigned area type; the constructor does not depend on the
  attribute when the England dataset is not cached or \<open>force_load\<close> is true; no
  construction raises \<open>AttributeError\<close>; and after a construction that returns, the
  cached area type is the requested one and the cached England dataset was either
  loaded in this construction with that area type, or was cached before, unchanged,
  next to an area type that already was the requested one.
\<close>

lemma area_type_assigned_with_dataset:
  assumes "s = constructions calls class_initial"
  shows "(england_cases_data s \<noteq> None \<longrightarrow> england_area_type s \<noteq> None)
       \<and> (england_cases_data s = None \<or> force_load \<longrightarrow>
            init w force_load t (s\<lparr>england_area_type := a\<rparr>) = init w force_load t s)
       \<and> snd (init w force_load t s) \<noteq> Some AttributeError
       \<and> (snd (init w force_load t s) = None \<longrightarrow>
            england_area_type (fst (init w force_load t s)) = Some t
            \<and> (\<exists>df. england_cases_data (fst (init w force_load t s)) = Some df
                  \<and> (load_cases_dataset w t ''England'' = Inr df
                     \<or> england_cases_data s = Some df \<and> england_area_type s = Some t)))"
proof -
  have inv: "cache_inv s" unfolding assms by (rule cache_inv_reached)
  then have one: "england_cases_data s \<noteq> None \<longrightarrow> england_area_type s \<noteq> None"
    by (simp add: cache_inv_def)
  have two: "england_cases_data s = None \<or> force_load \<longrightarrow>
            init w force_load t (s\<lparr>england_area_type := a\<rparr>) = init w force_load t s"
    by (simp add: init_def init_england_ignores_area_type)
  have three: "snd (init w force_load t s) \<noteq> Some AttributeError"
    using inv by (rule init_not_attribute_error)
  have four: "snd (init w force_load t s) = None \<longrightarrow>
            england_area_type (fst (init w force_load t s)) = Some t
            \<and> (\<exists>df. england_cases_data (fst (init w force_load t s)) = Some df
                  \<and> (load_cases_dataset w t ''England'' = Inr df
                     \<or> england_cases_data s = Some df \<and> england_area_type s = Some t))"
  proof
    assume ok: "snd (init w force_load t s) = None"
    from init_england_kept_or_loaded[OF init_returns(1)[OF ok]]
    show "england_area_type (fst (init w force_load t s)) = Some t
            \<and> (\<exists>df. england_cases_data (fst (init w force_load t s)) = Some df
                  \<and> (load_cases_dataset w t ''England'' = Inr df
                     \<or> england_cases_data s = Some df \<and> england_area_type s = Some t))"
      unfolding init_returns(2)[OF ok] by simp
  qed
  from one two three four show ?thesis by blast
qed

text \<open>
  The constructor assigns \<open>england_area_type\<close> before it calls the loader. When the
  England dataset is to be loaded and the loader raises, the construction ends with
  that error, the requested area type is cached, and the England dataset is the one
  that was cached before.
\<close>

lemma failed_england_load:
  assumes "england_cases_data s = None \<or> force_load
           \<or> (\<exists>cached. england_area_type s = Some cached \<and> cached \<noteq> t)"
    and "load_cases_dataset w t ''England'' = Inl e"
  shows "init w force_load t s =
           (s\<lparr>england_area_type := Some t,
              requests := requests s @ [LoadCases t ''England'']\<rparr>, Some e)"
  using assms by (auto simp: init_def init_england_def Let_def)

text \<open>
  Claim C10. The attribute is never read before it is assigned, as shown above; but the
  claim also says that after every construction the cached area type is the one the
  cached England dataset was loaded with, and the code breaks that once a load has
  raised. After a construction for the upper tier, one for the lower tier whose request
  fails, and one more for the lower tier, which finds the area type it asks for and
  returns without loading, the cached England dataset is still the upper-tier one,
  which is not what the lower tier loads, and the cached area type is the lower tier.
\<close>

theorem failed_load_keeps_stale_england_dataset:
  "snd (init world_up False ''ltla''
          (constructions [(world_up, False, ''utla''), (world_down, False, ''ltla'')] class_initial))
     = None
   \<and> constructions calls_with_failure class_initial =
       fst (init world_up False ''ltla''
          (constructions [(world_up, False, ''utla''), (world_down, False, ''ltla'')] class_initial))
   \<and> england_cases_data (constructions calls_with_failure class_initial) = Some kent_matrix
   \<and> load_cases_dataset world_up ''utla'' ''England'' = Inr kent_matrix
   \<and> load_cases_dataset world_up ''ltla'' ''England'' \<noteq> Inr kent_matrix
   \<and> england_area_type (constructions calls_with_failure class_initial) = Some ''ltla''
   \<and> england_area_type (constructions calls_with_failure class_initial) \<noteq> Some ''utla''"
  unfolding calls_with_failure_def kent_matrix_def by code_simp

section \<open>The combined dataset\<close>

lemma fill_reindex_column: "map (fill_cell 0) (reindex_column df day) = bcol df day"
  by (simp add: reindex_column_def bcol_def fill_cell_def split: option.split)

lemma map_of_nth_label:
  assumes "distinct (labels df)" and "j < length (columns df)"
  shows "map_of (columns df) (labels df ! j) = Some (snd (columns df ! j))"
proof -
  have "distinct (map fst (columns df))" using assms(1) by (simp add: labels_def)
  moreover have "(labels df ! j, snd (columns df ! j)) \<in> set (columns df)"
    using assms(2) by (simp add: labels_def)
  ultimately show ?thesis by (rule map_of_is_SomeI)
qed

lemma reindex_column_nth:
  assumes "distinct (labels df)" and "j < length (columns df)"
  shows "reindex_column df (labels df ! j) = snd (columns df ! j)"
  by (simp add: reindex_column_def map_of_nth_label[OF assms])

lemma index_union_distinct:
  assumes "distinct xs" and "distinct ys"
  shows "distinct (index_union b xs ys)"
    and "set (index_union b xs ys) = set xs \<union> set ys"
  using assms by (auto simp: index_union_def Let_def)

lemma piece_is_reindex_column:
  assumes "distinct (labels df)" and "j < length L"
  shows "(if labels df = L then snd (columns df ! j) else reindex_column df (L ! j))
         = reindex_column df (L ! j)"
proof (cases "labels df = L")
  case True
  then have "j < length (columns df)" using assms(2) by (auto simp: labels_def)
  from reindex_column_nth[OF assms(1) this] True show ?thesis by simp
next
  case False
  then show ?thesis by simp
qed

lemma pd_concat_three:
  assumes "distinct (labels e)" "distinct (labels wl)" "distinct (labels sc)"
  shows "\<exists>L. distinct L
           \<and> set L = set (labels e) \<union> set (labels wl) \<union> set (labels sc)
           \<and> pd_concat b [e, wl, sc] =
               Inr \<lparr>index = index e @ index wl @ index sc,
                    columns = map (\<lambda>day. (day, reindex_column e day @ reindex_column wl day
                                                 @ reindex_column sc day)) L\<rparr>"
proof -
  let ?L1 = "index_union b (labels e) (labels wl)"
  let ?L = "index_union b ?L1 (labels sc)"
  have d1: "distinct ?L1" and s1: "set ?L1 = set (labels e) \<union> set (labels wl)"
    using index_union_distinct[OF assms(1,2)] by blast+
  have dL: "distinct ?L" and sL: "set ?L = set (labels e) \<union> set (labels wl) \<union> set (labels sc)"
    using index_union_distinct[OF d1 assms(3)] s1 by blast+
  have cols: "map (\<lambda>j. (?L ! j,
                 (if labels e = ?L then snd (columns e ! j) else reindex_column e (?L ! j)) @
                 (if labels wl = ?L then snd (columns wl ! j) else reindex_column wl (?L ! j)) @
                 (if labels sc = ?L then snd (columns sc ! j) else reindex_column sc (?L ! j))))
               [0..<length ?L]
        = map (\<lambda>day. (day, reindex_column e day @ reindex_column wl day
                                   @ reindex_column sc day)) ?L"
  proof (rule nth_equalityI)
    show "length (map (\<lambda>j. (?L ! j,
                 (if labels e = ?L then snd (columns e ! j) else reindex_column e (?L ! j)) @
                 (if labels wl = ?L then snd (columns wl ! j) else reindex_column wl (?L ! j)) @
                 (if labels sc = ?L then snd (columns sc ! j) else reindex_column sc (?L ! j))))
               [0..<length ?L])
        = length (map (\<lambda>day. (day, reindex_column e day @ reindex_column wl day
                                   @ reindex_column sc day)) ?L)"
      by simp
  next
    fix j
    assume "j < length (map (\<lambda>j. (?L ! j,
                 (if labels e = ?L then snd (columns e ! j) else reindex_column e (?L ! j)) @
                 (if labels wl = ?L then snd (columns wl ! j) else reindex_column wl (?L ! j)) @
                 (if labels sc = ?L then snd (columns sc ! j) else reindex_column sc (?L ! j))))
               [0..<length ?L])"
    then have j: "j < length ?L" by simp
    show "map (\<lambda>j. (?L ! j,
                 (if labels e = ?L then snd (columns e ! j) else reindex_column e (?L ! j)) @
                 (if labels wl = ?L then snd (columns wl ! j) else reindex_column wl (?L ! j)) @
                 (if labels sc = ?L then snd (columns sc ! j) else reindex_column sc (?L ! j))))
               [0..<length ?L] ! j
        = map (\<lambda>day. (day, reindex_column e day @ reindex_column wl day
                                   @ reindex_column sc day)) ?L ! j"
      using j piece_is_reindex_column[OF assms(1) j] piece_is_reindex_column[OF assms(2) j]
        piece_is_reindex_column[OF assms(3) j]
      by (simp only: nth_map length_upt diff_zero nth_upt add_0)
  qed
  have "pd_concat b [e, wl, sc] =
               Inr \<lparr>index = index e @ index wl @ index sc,
                    columns = map (\<lambda>day. (day, reindex_column e day @ reindex_column wl day
                                                 @ reindex_column sc day)) ?L\<rparr>"
    using assms by (simp add: pd_concat_def Let_def cols cong del: if_weak_cong)
  with dL sL show ?thesis by blast
qed

text \<open>
  Claim C5. With the three national matrices cached, each with distinct date columns,
  the combined read returns a matrix whose rows are the rows of England, then Wales,
  then Scotland, whose column labels are distinct and are, as a set, the union of the
  three label sets, and whose column for each such date is, nation after nation, the
  nation's own column with NaN replaced by 0.0, or zeros for every row of a nation
  that has no column for the date.
\<close>

theorem combined_dataset_union:
  assumes "england_cases_data s = Some e"
    and "wales_cases_data s = Some wl"
    and "scotland_cases_data s = Some sc"
    and "distinct (labels e)" and "distinct (labels wl)" and "distinct (labels sc)"
  shows "\<exists>u. get_cases_data s = Inr u
           \<and> index u = index e @ index wl @ index sc
           \<and> distinct (labels u)
           \<and> set (labels u) = set (labels e) \<union> set (labels wl) \<union> set (labels sc)
           \<and> (\<forall>day \<in> set (labels u).
                 map_of (columns u) day = Some (bcol e day @ bcol wl day @ bcol sc day))"
proof -
  from pd_concat_three[OF assms(4,5,6)] obtain L where
    L: "distinct L" "set L = set (labels e) \<union> set (labels wl) \<union> set (labels sc)"
    and cat: "pd_concat False [e, wl, sc] =
               Inr \<lparr>index = index e @ index wl @ index sc,
                    columns = map (\<lambda>day. (day, reindex_column e day @ reindex_column wl day
                                                 @ reindex_column sc day)) L\<rparr>"
    by blast
  let ?u = "\<lparr>index = index e @ index wl @ index sc,
             columns = map (\<lambda>day. (day, bcol e day @ bcol wl day @ bcol sc day)) L\<rparr>"
  have "get_cases_data s = Inr ?u"
    by (simp add: get_cases_data_def assms(1,2,3) List.map_filter_simps cat fillna_def
        comp_def fill_reindex_column)
  moreover have "labels ?u = L" by (simp add: labels_def comp_def)
  moreover have "\<forall>day \<in> set L.
      map_of (columns ?u) day = Some (bcol e day @ bcol wl day @ bcol sc day)"
    by (simp add: map_of_zero_columns)
  ultimately show ?thesis using L by (intro exI[of _ ?u]) simp
qed

theorem combined_dataset_union_witness:
  "england_cases_data uneven_cache = Some england_jan1_5
   \<and> wales_cases_data uneven_cache = Some wales_jan1_5
   \<and> scotland_cases_data uneven_cache = Some scotland_jan3_7
   \<and> distinct (labels england_jan1_5) \<and> distinct (labels wales_jan1_5)
   \<and> distinct (labels scotland_jan3_7)
   \<and> (\<exists>u. get_cases_data uneven_cache = Inr u
         \<and> index u = [(''England'', ''Kent''), (''Wales'', ''Cardiff''), (''Scotland'', ''Fife'')]
         \<and> set (labels u) = {ymd 2021 1 1, ymd 2021 1 2, ymd 2021 1 3, ymd 2021 1 4,
                              ymd 2021 1 5, ymd 2021 1 6, ymd 2021 1 7}
         \<and> map_of (columns u) (ymd 2021 1 1) = Some [Some 1, Some 6, Some 0]
         \<and> map_of (columns u) (ymd 2021 1 2) = Some [Some 2, Some 7, Some 0]
         \<and> map_of (columns u) (ymd 2021 1 6) = Some [Some 0, Some 0, Some 14]
         \<and> map_of (columns u) (ymd 2021 1 7) = Some [Some 0, Some 0, Some 15])"
proof -
  have h: "england_cases_data uneven_cache = Some england_jan1_5"
    "wales_cases_data uneven_cache = Some wales_jan1_5"
    "scotland_cases_data uneven_cache = Some scotland_jan3_7"
    by (simp_all add: uneven_cache_def)
  have d: "distinct (labels england_jan1_5)" "distinct (labels wales_jan1_5)"
    "distinct (labels scotland_jan3_7)"
    by (simp_all add: labels_def england_jan1_5_def wales_jan1_5_def scotland_jan3_7_def)
  from combined_dataset_union[OF h d] obtain u where
    u: "get_cases_data uneven_cache = Inr u"
       "index u = index england_jan1_5 @ index wales_jan1_5 @ index scotland_jan3_7"
       "set (labels u) = set (labels england_jan1_5) \<union> set (labels wales_jan1_5)
                          \<union> set (labels scotland_jan3_7)"
       "\<forall>day \<in> set (labels u). map_of (columns u) day =
          Some (bcol england_jan1_5 day @ bcol wales_jan1_5 day @ bcol scotland_jan3_7 day)"
    by blast
  have i: "index u = [(''England'', ''Kent''), (''Wales'', ''Cardiff''), (''Scotland'', ''Fife'')]"
    unfolding u(2) by (simp add: england_jan1_5_def wales_jan1_5_def scotland_jan3_7_def)
  have l: "set (labels u) = {ymd 2021 1 1, ymd 2021 1 2, ymd 2021 1 3, ymd 2021 1 4,
                              ymd 2021 1 5, ymd 2021 1 6, ymd 2021 1 7}"
    unfolding u(3)
    by (auto simp: labels_def england_jan1_5_def wales_jan1_5_def scotland_jan3_7_def)
  have c1: "map_of (columns u) (ymd 2021 1 1) = Some [Some 1, Some 6, Some 0]"
    using u(4)[rule_format, of "ymd 2021 1 1"] l
    by (simp add: bcol_def england_jan1_5_def wales_jan1_5_def scotland_jan3_7_def fill_cell_def)
  have c2: "map_of (columns u) (ymd 2021 1 2) = Some [Some 2, Some 7, Some 0]"
    using u(4)[rule_format, of "ymd 2021 1 2"] l
    by (simp add: bcol_def england_jan1_5_def wales_jan1_5_def scotland_jan3_7_def fill_cell_def)
  have c6: "map_of (columns u) (ymd 2021 1 6) = Some [Some 0, Some 0, Some 14]"
    using u(4)[rule_format, of "ymd 2021 1 6"] l
    by (simp add: bcol_def england_jan1_5_def wales_jan1_5_def scotland_jan3_7_def fill_cell_def)
  have c7: "map_of (columns u) (ymd 2021 1 7) = Some [Some 0, Some 0, Some 15]"
    using u(4)[rule_format, of "ymd 2021 1 7"] l
    by (simp add: bcol_def england_jan1_5_def wales_jan1_5_def scotland_jan3_7_def fill_cell_def)
  from h d u(1) i l c1 c2 c6 c7 show ?thesis by blast
qed

end
